theory Spec2Isabelle
  imports Complex_Main
begin

section \<open>The battery charging action server\<close>

text \<open>
  A shallow embedding of \<^verbatim>\<open>src/robot_actions/battery_charger.py\<close>: the node
  \<^verbatim>\<open>BatteryCharger\<close> with its three callbacks.

  Numbers. The battery level starts as the Python integer 20 and becomes a float at the
  first increment; the rate is the float 5.0. Levels are modelled as real numbers. In
  the states of the running server (rate 5.0, increments of 2.5) with integer targets
  from 0 to 100, every level is a multiple of one half between 20 and 100, which double
  precision represents and adds exactly, so there the model computes what the code
  computes; the same holds at rate 10 from level 20, where the levels are multiples of 5.
  For other rates and levels (a rate too small to change a double, a level of huge
  magnitude) the code's additions round and the model does not follow them, so the
  statements about whole runs are made for states of the running server or for the
  node of a scenario. The quotient
  \<^verbatim>\<open>remaining_percent / self.charge_rate\<close> is modelled as the exact quotient; no
  statement below depends on its value, only on whether the division raises.

  The message types come from the package \<^verbatim>\<open>custom_interfaces\<close>, which is not part
  of the sources; a target is taken to be any real number, which covers an integer field.
\<close>

subsection \<open>Data\<close>

datatype GoalResponse = GoalResponse_REJECT | GoalResponse_ACCEPT

datatype CancelResponse = CancelResponse_REJECT | CancelResponse_ACCEPT

text \<open>One constructor for each call of the node's logger, with the values it formats.\<close>

datatype log_entry =
    Info_separator
  | Info_Station_Ready
  | Info_Current_battery real
  | Info_Charge_rate real
  | Info_Charging_request_received real
  | Warn_Invalid_target real
  | Warn_Already_at real real
  | Info_Goal_accepted
  | Info_Cancel_request_received
  | Info_Charging_started
  | Info_Charging_canceled
  | Info_Charging int real
  | Info_Charging_complete
  | Info_Final int
  | Info_Time real

text \<open>The object \<^verbatim>\<open>self\<close>: its two fields and what its logger has written.\<close>

record BatteryCharger =
  current_battery :: real
  charge_rate :: real
  logged :: "log_entry list"

record Feedback =
  current_percentage :: int
  time_remaining :: real
  charging_rate :: real

record Result =
  success :: bool
  final_percentage :: int
  charging_time :: real

datatype goal_status = EXECUTING | CANCELED | SUCCEEDED

text \<open>
  What \<^verbatim>\<open>execute_callback\<close> reads and writes: the node, the clock behind
  \<^verbatim>\<open>time.time()\<close>, the feedback messages handed to
  \<^verbatim>\<open>goal_handle.publish_feedback\<close> (oldest first) and the terminal call made on the
  goal handle. \<^verbatim>\<open>time.sleep(0.5)\<close> advances the clock by one half; everything else
  takes no time.
\<close>

record exec_state =
  node :: BatteryCharger
  clock :: real
  published :: "Feedback list"
  status :: goal_status

datatype py_error = ZeroDivisionError

datatype 'a outcome = Raised py_error | Returned 'a

subsection \<open>Construction\<close>

definition BatteryCharger_init :: BatteryCharger where
  "BatteryCharger_init =
     \<lparr>current_battery = 20, charge_rate = 5,
      logged = [Info_separator, Info_Station_Ready, Info_Current_battery 20,
                Info_Charge_rate 5, Info_separator]\<rparr>"

subsection \<open>Goal and cancel callbacks\<close>

definition info :: "log_entry \<Rightarrow> BatteryCharger \<Rightarrow> BatteryCharger" where
  "info e s = s\<lparr>logged := logged s @ [e]\<rparr>"

definition goal_callback :: "BatteryCharger \<Rightarrow> real \<Rightarrow> GoalResponse \<times> BatteryCharger" where
  "goal_callback s target =
     (let s1 = info (Info_Charging_request_received target) s in
      if target < 0 \<or> target > 100 then
        (GoalResponse_REJECT, info (Warn_Invalid_target target) s1)
      else if current_battery s1 \<ge> target then
        (GoalResponse_REJECT, info (Warn_Already_at (current_battery s1) target) s1)
      else
        (GoalResponse_ACCEPT, info Info_Goal_accepted s1))"

definition cancel_callback :: "BatteryCharger \<Rightarrow> CancelResponse \<times> BatteryCharger" where
  "cancel_callback s = (CancelResponse_ACCEPT, info Info_Cancel_request_received s)"

subsection \<open>Execution\<close>

text \<open>Python's \<^verbatim>\<open>int\<close> of a float drops the fractional part, towards zero.\<close>

definition py_int :: "real \<Rightarrow> int" where
  "py_int x = (if 0 \<le> x then \<lfloor>x\<rfloor> else \<lceil>x\<rceil>)"

definition charge_amount :: "BatteryCharger \<Rightarrow> real" where
  "charge_amount s = charge_rate s * (1 / 2)"

text \<open>
  The value of \<^verbatim>\<open>goal_handle.is_cancel_requested\<close> is set from outside; the loop
  reads it once at the top of each iteration. The readings are an input: a function
  from the number of the reading to its value, of which each iteration consumes one.
\<close>

type_synonym cancel_flag = "nat \<Rightarrow> bool"

definition later :: "cancel_flag \<Rightarrow> cancel_flag" where
  "later cancel = (\<lambda>k. cancel (Suc k))"

definition never_cancel :: cancel_flag where
  "never_cancel = (\<lambda>k. False)"

definition cancel_after :: "nat \<Rightarrow> cancel_flag" where
  "cancel_after n = (\<lambda>k. n \<le> k)"

text \<open>
  Lines 114 to 132, one pass through the loop body after the cancel check. The division
  by a zero rate raises after the assignment to \<^verbatim>\<open>self.current_battery\<close>.
\<close>

definition charge_tick :: "real \<Rightarrow> exec_state \<Rightarrow> unit outcome \<times> exec_state" where
  "charge_tick target w =
     (let s1 = (node w)\<lparr>current_battery :=
                 min (current_battery (node w) + charge_amount (node w)) target\<rparr>;
          remaining_percent = target - current_battery s1
      in if charge_rate s1 = 0 then (Raised ZeroDivisionError, w\<lparr>node := s1\<rparr>)
         else
           let time_remaining = remaining_percent / charge_rate s1;
               feedback_msg = \<lparr>current_percentage = py_int (current_battery s1),
                               time_remaining = time_remaining,
                               charging_rate = charge_rate s1\<rparr>;
               s2 = info (Info_Charging (current_percentage feedback_msg) time_remaining) s1
           in (Returned (),
               w\<lparr>node := s2, published := published w @ [feedback_msg],
                 clock := clock w + 1 / 2\<rparr>))"

text \<open>Lines 105 to 112: the return taken when the cancel flag is seen.\<close>

definition canceled_return :: "real \<Rightarrow> exec_state \<Rightarrow> Result outcome \<times> exec_state" where
  "canceled_return start_time w =
     (let result = \<lparr>success = False,
                     final_percentage = py_int (current_battery (node w)),
                     charging_time = clock w - start_time\<rparr>
      in (Returned result,
          w\<lparr>status := CANCELED, node := info Info_Charging_canceled (node w)\<rparr>))"

text \<open>Lines 134 to 149: the return taken when the loop condition fails.\<close>

definition succeeded_return :: "real \<Rightarrow> exec_state \<Rightarrow> Result outcome \<times> exec_state" where
  "succeeded_return start_time w =
     (let total_time = clock w - start_time;
          result = \<lparr>success = True,
                     final_percentage = py_int (current_battery (node w)),
                     charging_time = total_time\<rparr>;
          s1 = info Info_separator (node w);
          s2 = info Info_Charging_complete s1;
          s3 = info (Info_Final (final_percentage result)) s2;
          s4 = info (Info_Time (charging_time result)) s3;
          s5 = info Info_separator s4
      in (Returned result, w\<lparr>status := SUCCEEDED, node := s5\<rparr>))"

text \<open>
  The \<^verbatim>\<open>while\<close> loop with what follows it. The loop need not end (a negative
  rate moves the level away from the target), so the result is optional: \<open>None\<close> is a
  run that never returns.
\<close>

partial_function (option) charging_loop ::
  "cancel_flag \<Rightarrow> real \<Rightarrow> real \<Rightarrow> exec_state \<Rightarrow> (Result outcome \<times> exec_state) option" where
  "charging_loop cancel target start_time w =
     (if current_battery (node w) < target then
        if cancel 0 then Some (canceled_return start_time w)
        else
          (case charge_tick target w of
             (Raised e, w') \<Rightarrow> Some (Raised e, w')
           | (Returned u, w') \<Rightarrow> charging_loop (later cancel) target start_time w')
      else Some (succeeded_return start_time w))"

declare charging_loop.simps [code]

definition execute_callback ::
  "cancel_flag \<Rightarrow> real \<Rightarrow> exec_state \<Rightarrow> (Result outcome \<times> exec_state) option" where
  "execute_callback cancel target w =
     (let w0 = w\<lparr>node := info Info_Charging_started (node w)\<rparr>;
          start_time = clock w0
      in charging_loop cancel target start_time w0)"

text \<open>The state in which the transport calls \<^verbatim>\<open>execute_callback\<close> for a new goal.\<close>

definition goal_start :: "BatteryCharger \<Rightarrow> real \<Rightarrow> exec_state" where
  "goal_start s t = \<lparr>node = s, clock = t, published = [], status = EXECUTING\<rparr>"

subsection \<open>States of the running server\<close>

text \<open>
  The node states that occur while the server runs: the constructed node, and from any
  such state the state after each callback and after each step of
  \<^verbatim>\<open>execute_callback\<close> (its first log line, a pass through the loop body under the
  loop condition, either return).
\<close>

inductive reachable :: "BatteryCharger \<Rightarrow> bool" where
  init: "reachable BatteryCharger_init"
| goal: "reachable s \<Longrightarrow> reachable (snd (goal_callback s target))"
| cancel: "reachable s \<Longrightarrow> reachable (snd (cancel_callback s))"
| started: "reachable s \<Longrightarrow> reachable (info Info_Charging_started s)"
| tick: "reachable (node w) \<Longrightarrow> current_battery (node w) < target \<Longrightarrow>
     reachable (node (snd (charge_tick target w)))"
| canceled: "reachable (node w) \<Longrightarrow> reachable (node (snd (canceled_return start_time w)))"
| succeeded: "reachable (node w) \<Longrightarrow> reachable (node (snd (succeeded_return start_time w)))"

code_pred reachable .

text \<open>
  What a run leaves to observe: its outcome, the final level, the levels published as
  feedback and the terminal call on the goal handle.
\<close>

definition report ::
  "(Result outcome \<times> exec_state) option \<Rightarrow>
     (Result outcome \<times> real \<times> int list \<times> goal_status) option" where
  "report = map_option (\<lambda>(out, w).
     (out, current_battery (node w), map current_percentage (published w), status w))"

section \<open>Properties\<close>

subsection \<open>Auxiliary facts\<close>

lemmas run_defs = execute_callback_def goal_start_def BatteryCharger_init_def info_def
  goal_callback_def charge_tick_def charge_amount_def canceled_return_def
  succeeded_return_def py_int_def never_cancel_def cancel_after_def later_def report_def
  Let_def

lemma info_fields [simp]:
  "current_battery (info e s) = current_battery s"
  "charge_rate (info e s) = charge_rate s"
  "logged (info e s) = logged s @ [e]"
  by (simp_all add: info_def)

lemma goal_callback_fields:
  "current_battery (snd (goal_callback s target)) = current_battery s"
  "charge_rate (snd (goal_callback s target)) = charge_rate s"
  by (simp_all add: goal_callback_def Let_def)

lemma goal_callback_accept:
  "goal_callback s target = (GoalResponse_ACCEPT, s') \<Longrightarrow>
     0 \<le> target \<and> target \<le> 100 \<and> current_battery s < target \<and>
     current_battery s' = current_battery s \<and> charge_rate s' = charge_rate s"
  by (auto simp: goal_callback_def Let_def split: if_splits)

lemma charge_tick_Returned:
  assumes "charge_rate (node w) \<noteq> 0"
  shows "charge_tick target w =
    (Returned (),
     w\<lparr>node := info (Info_Charging
                      (py_int (min (current_battery (node w) + charge_amount (node w)) target))
                      ((target - min (current_battery (node w) + charge_amount (node w)) target)
                         / charge_rate (node w)))
                ((node w)\<lparr>current_battery :=
                   min (current_battery (node w) + charge_amount (node w)) target\<rparr>),
       published := published w @
         [\<lparr>current_percentage =
              py_int (min (current_battery (node w) + charge_amount (node w)) target),
           time_remaining =
              (target - min (current_battery (node w) + charge_amount (node w)) target)
                / charge_rate (node w),
           charging_rate = charge_rate (node w)\<rparr>],
       clock := clock w + 1 / 2\<rparr>)"
  using assms by (simp add: charge_tick_def Let_def)

lemma charge_tick_fields:
  assumes "charge_rate (node w) \<noteq> 0"
  shows "fst (charge_tick target w) = Returned ()"
    and "current_battery (node (snd (charge_tick target w))) =
           min (current_battery (node w) + charge_amount (node w)) target"
    and "charge_rate (node (snd (charge_tick target w))) = charge_rate (node w)"
    and "clock (snd (charge_tick target w)) = clock w + 1 / 2"
    and "status (snd (charge_tick target w)) = status w"
    and "published (snd (charge_tick target w)) = published w @
           [\<lparr>current_percentage = py_int (current_battery (node (snd (charge_tick target w)))),
             time_remaining = (target - current_battery (node (snd (charge_tick target w))))
                                / charge_rate (node w),
             charging_rate = charge_rate (node w)\<rparr>]"
  using assms by (simp_all add: charge_tick_Returned)

lemma charge_tick_rate:
  "charge_rate (node (snd (charge_tick target w))) = charge_rate (node w)"
  by (simp add: charge_tick_def Let_def)

lemma charge_tick_level:
  "current_battery (node (snd (charge_tick target w))) =
     min (current_battery (node w) + charge_amount (node w)) target"
  by (simp add: charge_tick_def Let_def)

lemma return_fields [simp]:
  "charge_rate (node (snd (canceled_return st w))) = charge_rate (node w)"
  "current_battery (node (snd (canceled_return st w))) = current_battery (node w)"
  "charge_rate (node (snd (succeeded_return st w))) = charge_rate (node w)"
  "current_battery (node (snd (succeeded_return st w))) = current_battery (node w)"
  "published (snd (canceled_return st w)) = published w"
  "published (snd (succeeded_return st w)) = published w"
  "clock (snd (canceled_return st w)) = clock w"
  "clock (snd (succeeded_return st w)) = clock w"
  by (simp_all add: canceled_return_def succeeded_return_def Let_def)

lemma reachable_invariant:
  "reachable s \<Longrightarrow> charge_rate s = 5 \<and> 20 \<le> current_battery s"
proof (induction rule: reachable.induct)
  case (tick w target)
  then show ?case
    by (simp add: charge_tick_rate charge_tick_level charge_amount_def) 
next
  case (goal s target)
  then show ?case by (simp add: goal_callback_fields)
qed (simp_all add: BatteryCharger_init_def cancel_callback_def)

text \<open>
  Total correctness of the loop for a positive rate \<open>r\<close>: an invariant \<open>I\<close> of the
  loop body that fixes the rate gives a run that returns, and the returned value satisfies
  whatever both exits establish from \<open>I\<close>. The distance to the target, counted in
  increments, bounds the number of iterations.
\<close>

lemma charging_loop_rule:
  fixes I :: "cancel_flag \<Rightarrow> exec_state \<Rightarrow> bool"
  assumes pos: "0 < r"
    and init: "I cancel w"
    and rate: "\<And>c v. I c v \<Longrightarrow> charge_rate (node v) = r"
    and step: "\<And>c v. I c v \<Longrightarrow> current_battery (node v) < target \<Longrightarrow> \<not> c 0 \<Longrightarrow>
                 I (later c) (snd (charge_tick target v))"
    and stop: "\<And>c v. I c v \<Longrightarrow> current_battery (node v) < target \<Longrightarrow> c 0 \<Longrightarrow>
                 Q (canceled_return st v)"
    and exit: "\<And>c v. I c v \<Longrightarrow> \<not> current_battery (node v) < target \<Longrightarrow>
                 Q (succeeded_return st v)"
  shows "\<exists>out. charging_loop cancel target st w = Some out \<and> Q out"
proof -
  have main: "I c v \<Longrightarrow> target - current_battery (node v) \<le> real n * (r * (1 / 2)) \<Longrightarrow>
      \<exists>out. charging_loop c target st v = Some out \<and> Q out" for n c v
  proof (induction n arbitrary: c v)
    case 0
    then have "\<not> current_battery (node v) < target" by simp
    with 0 show ?case
      by (subst charging_loop.simps) (simp add: exit)
  next
    case (Suc n)
    show ?case
    proof (cases "current_battery (node v) < target")
      case False
      with Suc.prems show ?thesis
        by (subst charging_loop.simps) (simp add: exit)
    next
      case below: True
      show ?thesis
      proof (cases "c 0")
        case True
        with below Suc.prems show ?thesis
          by (subst charging_loop.simps) (simp add: stop)
      next
        case False
        have r: "charge_rate (node v) = r" using Suc.prems(1) by (rule rate)
        with pos have nz: "charge_rate (node v) \<noteq> 0" by simp
        obtain v' where tick: "charge_tick target v = (Returned (), v')"
          using charge_tick_Returned[OF nz] by blast
        then have v': "v' = snd (charge_tick target v)" by simp
        have I': "I (later c) v'"
          unfolding v' using Suc.prems(1) below False by (rule step)
        have "target - current_battery (node v') \<le> real n * (r * (1 / 2))"
          unfolding v' using Suc.prems(2) pos r
          by (simp add: charge_tick_level charge_amount_def min_def algebra_simps)
        with I' have "\<exists>out. charging_loop (later c) target st v' = Some out \<and> Q out"
          by (rule Suc.IH)
        then show ?thesis
          using below False tick by (subst charging_loop.simps) simp
      qed
    qed
  qed
  have half: "0 < r * (1 / 2)" using pos by simp
  obtain n :: nat where "(target - current_battery (node w)) / (r * (1 / 2)) \<le> real n"
    using real_arch_simple by blast
  with half have "target - current_battery (node w) \<le> real n * (r * (1 / 2))"
    by (simp only: pos_divide_le_eq)
  with init show ?thesis by (rule main)
qed

lemma py_int_mono:
  assumes "x \<le> y"
  shows "py_int x \<le> py_int y"
proof (cases "0 \<le> x")
  case True
  with assms have "0 \<le> y" by simp
  with True assms show ?thesis by (simp add: py_int_def floor_mono)
next
  case neg: False
  show ?thesis
  proof (cases "0 \<le> y")
    case True
    have "\<lceil>x\<rceil> \<le> 0" using neg by (simp add: ceiling_le_iff)
    moreover have "0 \<le> \<lfloor>y\<rfloor>" using True by simp
    ultimately have "\<lceil>x\<rceil> \<le> \<lfloor>y\<rfloor>" by (rule order_trans)
    then show ?thesis using neg True by (simp add: py_int_def)
  next
    case False
    with neg assms show ?thesis by (simp add: py_int_def ceiling_mono)
  qed
qed

lemma execute_callback_loop:
  "execute_callback cancel target w =
     charging_loop cancel target (clock w) (w\<lparr>node := info Info_Charging_started (node w)\<rparr>)"
  by (simp add: execute_callback_def Let_def)

lemma charging_loop_step:
  assumes "charge_rate (node w) \<noteq> 0" and "current_battery (node w) < target" and "\<not> cancel 0"
  shows "charging_loop cancel target start_time w =
           charging_loop (later cancel) target start_time (snd (charge_tick target w))"
proof -
  have "charge_tick target w = (Returned (), snd (charge_tick target w))"
    using charge_tick_fields(1)[OF assms(1), of target] by (simp add: prod_eq_iff)
  then obtain w' where t: "charge_tick target w = (Returned (), w')" and w': "w' = snd (charge_tick target w)"
    by blast
  show ?thesis
    unfolding w'[symmetric] using assms(2,3) t by (subst charging_loop.simps) simp
qed

lemma sorted_snoc:
  fixes y :: int
  assumes "sorted xs" and "xs \<noteq> [] \<Longrightarrow> last xs \<le> y"
  shows "sorted (xs @ [y])"
proof -
  have "x \<le> y" if "x \<in> set xs" for x
  proof -
    from that have ne: "xs \<noteq> []" by auto
    from that obtain i where "i < length xs" "xs ! i = x" by (auto simp: in_set_conv_nth)
    with assms(1) ne have "x \<le> last xs"
      by (auto simp: last_conv_nth sorted_iff_nth_mono)
    with assms(2)[OF ne] show ?thesis by simp
  qed
  with assms(1) show ?thesis by (simp add: sorted_append)
qed

lemma ticks_left_step:
  fixes a b target :: real
  assumes "0 < a" and "b < target"
  shows "nat \<lceil>(target - b) / a\<rceil> = Suc (nat \<lceil>(target - min (b + a) target) / a\<rceil>)"
proof (cases "b + a \<le> target")
  case True
  then have m: "min (b + a) target = b + a" by simp
  have eq: "(target - (b + a)) / a = (target - b) / a - 1"
    using assms(1) by (simp add: field_simps)
  define k where "k = \<lceil>(target - (b + a)) / a\<rceil>"
  have "0 \<le> (target - (b + a)) / a" using True assms(1) by simp
  then have nonneg: "0 \<le> k" unfolding k_def by (simp add: zero_le_ceiling)
  have "\<lceil>(target - b) / a\<rceil> = k + 1"
    unfolding eq k_def by simp
  moreover have "nat (k + 1) = Suc (nat k)"
    using nonneg by (simp add: Suc_nat_eq_nat_zadd1)
  ultimately show ?thesis unfolding m k_def by simp
next
  case False
  then have m: "min (b + a) target = target" by simp
  have "0 < (target - b) / a" using assms by simp
  moreover have "(target - b) / a \<le> 1" using False assms(1) by simp
  ultimately have "\<lceil>(target - b) / a\<rceil> = 1" by (simp add: ceiling_eq_iff)
  then show ?thesis unfolding m by simp
qed

lemma goal_accepted_at_init:
  "goal_callback BatteryCharger_init 100 =
     (GoalResponse_ACCEPT, snd (goal_callback BatteryCharger_init 100))"
  by (simp add: goal_callback_def BatteryCharger_init_def info_def Let_def)

text \<open>A run started in a state of the running server returns, in such a state.\<close>

lemma execute_callback_reachable:
  assumes "reachable (node w)"
  shows "\<exists>res w'. execute_callback cancel target w = Some (Returned res, w') \<and>
           reachable (node w')"
proof -
  define I :: "cancel_flag \<Rightarrow> exec_state \<Rightarrow> bool" where "I = (\<lambda>c v. reachable (node v))"
  define Q :: "Result outcome \<times> exec_state \<Rightarrow> bool" where
    "Q = (\<lambda>out. \<exists>res w'. out = (Returned res, w') \<and> reachable (node w'))"
  let ?w0 = "w\<lparr>node := info Info_Charging_started (node w)\<rparr>"
  have "\<exists>out. charging_loop cancel target (clock w) ?w0 = Some out \<and> Q out"
  proof (rule charging_loop_rule[where r = 5 and I = I])
    show "(0::real) < 5" by simp
    show "I cancel ?w0" using assms by (simp add: I_def reachable.started)
    show "charge_rate (node v) = 5" if "I c v" for c v
      using that by (simp add: I_def reachable_invariant)
    show "I (later c) (snd (charge_tick target v))"
      if "I c v" "current_battery (node v) < target" "\<not> c 0" for c v
      using that by (simp add: I_def reachable.tick)
    show "Q (canceled_return (clock w) v)"
      if "I c v" "current_battery (node v) < target" "c 0" for c v
    proof -
      have "reachable (node (snd (canceled_return (clock w) v)))"
        using that(1) unfolding I_def by (rule reachable.canceled)
      then show ?thesis by (simp add: Q_def canceled_return_def)
    qed
    show "Q (succeeded_return (clock w) v)"
      if "I c v" "\<not> current_battery (node v) < target" for c v
    proof -
      have "reachable (node (snd (succeeded_return (clock w) v)))"
        using that(1) unfolding I_def by (rule reachable.succeeded)
      then show ?thesis by (simp add: Q_def succeeded_return_def Let_def)
    qed
  qed
  then show ?thesis unfolding Q_def execute_callback_loop by blast
qed

subsection \<open>Claims\<close>

text \<open>
  Claim C1. At the top of an iteration of the loop, in a state of the running server
  with the level below the target (as it is when an accepted goal starts executing): an
  iteration that is not cancelled sets the level to the smaller of the level plus 2.5
  and the target, which is strictly above the old level and not above the target, and
  the loop goes on from there; and the rest of the run returns with the level between
  its present value and the target, at the target when the run succeeds.
\<close>

theorem charge_state_increases_to_target:
  assumes "reachable (node w)" and "current_battery (node w) < target"
  shows "(\<not> cancel 0 \<longrightarrow>
            (\<exists>w'. charge_tick target w = (Returned (), w') \<and>
               charging_loop cancel target start_time w =
                 charging_loop (later cancel) target start_time w' \<and>
               current_battery (node w') = min (current_battery (node w) + 5 / 2) target \<and>
               current_battery (node w) < current_battery (node w') \<and>
               current_battery (node w') \<le> target)) \<and>
         (\<exists>res w'. charging_loop cancel target start_time w = Some (Returned res, w') \<and>
               current_battery (node w) \<le> current_battery (node w') \<and>
               current_battery (node w') \<le> target \<and>
               (success res \<longrightarrow> current_battery (node w') = target))"
proof -
  have rate: "charge_rate (node w) = 5"
    using assms(1) by (simp add: reachable_invariant)
  then have nz: "charge_rate (node w) \<noteq> 0" by simp
  let ?w' = "snd (charge_tick target w)"
  have tick: "charge_tick target w = (Returned (), ?w')"
    using charge_tick_fields(1)[OF nz, of target] by (simp add: prod_eq_iff)
  have level: "current_battery (node ?w') = min (current_battery (node w) + 5 / 2) target"
    using rate by (simp add: charge_tick_level charge_amount_def)
  have one: "\<not> cancel 0 \<longrightarrow>
            (\<exists>w'. charge_tick target w = (Returned (), w') \<and>
               charging_loop cancel target start_time w =
                 charging_loop (later cancel) target start_time w' \<and>
               current_battery (node w') = min (current_battery (node w) + 5 / 2) target \<and>
               current_battery (node w) < current_battery (node w') \<and>
               current_battery (node w') \<le> target)"
  proof
    assume nc: "\<not> cancel 0"
    have "charging_loop cancel target start_time w =
            charging_loop (later cancel) target start_time ?w'"
      using nz assms(2) nc by (rule charging_loop_step)
    moreover have "current_battery (node w) < current_battery (node ?w')"
      using level assms(2) by simp
    moreover have "current_battery (node ?w') \<le> target"
      using level by simp
    ultimately show "\<exists>w'. charge_tick target w = (Returned (), w') \<and>
               charging_loop cancel target start_time w =
                 charging_loop (later cancel) target start_time w' \<and>
               current_battery (node w') = min (current_battery (node w) + 5 / 2) target \<and>
               current_battery (node w) < current_battery (node w') \<and>
               current_battery (node w') \<le> target"
      using tick level by blast
  qed
  define I :: "cancel_flag \<Rightarrow> exec_state \<Rightarrow> bool" where
    "I = (\<lambda>c v. charge_rate (node v) = 5 \<and> current_battery (node w) \<le> current_battery (node v) \<and>
                 current_battery (node v) \<le> target)"
  define Q :: "Result outcome \<times> exec_state \<Rightarrow> bool" where
    "Q = (\<lambda>out. \<exists>res w'. out = (Returned res, w') \<and>
               current_battery (node w) \<le> current_battery (node w') \<and>
               current_battery (node w') \<le> target \<and>
               (success res \<longrightarrow> current_battery (node w') = target))"
  have "\<exists>out. charging_loop cancel target start_time w = Some out \<and> Q out"
  proof (rule charging_loop_rule[where r = 5 and I = I])
    show "(0::real) < 5" by simp
    show "I cancel w" using rate assms(2) by (simp add: I_def)
    show "charge_rate (node v) = 5" if "I c v" for c v using that by (simp add: I_def)
    show "I (later c) (snd (charge_tick target v))"
      if "I c v" "current_battery (node v) < target" "\<not> c 0" for c v
      using that by (simp add: I_def charge_tick_rate charge_tick_level charge_amount_def)
    show "Q (canceled_return start_time v)"
      if "I c v" "current_battery (node v) < target" "c 0" for c v
      using that by (simp add: I_def Q_def canceled_return_def)
    show "Q (succeeded_return start_time v)"
      if "I c v" "\<not> current_battery (node v) < target" for c v
      using that by (simp add: I_def Q_def succeeded_return_def Let_def)
  qed
  then have two: "\<exists>res w'. charging_loop cancel target start_time w = Some (Returned res, w') \<and>
               current_battery (node w) \<le> current_battery (node w') \<and>
               current_battery (node w') \<le> target \<and>
               (success res \<longrightarrow> current_battery (node w') = target)"
    unfolding Q_def by blast
  from one two show ?thesis by (rule conjI)
qed

theorem charge_state_increases_to_target_witness:
  "reachable (node (goal_start BatteryCharger_init 0)) \<and>
   current_battery (node (goal_start BatteryCharger_init 0)) < 100 \<and>
   \<not> never_cancel 0 \<and>
   (\<exists>w'. charge_tick 100 (goal_start BatteryCharger_init 0) = (Returned (), w') \<and>
      charging_loop never_cancel 100 0 (goal_start BatteryCharger_init 0) =
        charging_loop (later never_cancel) 100 0 w' \<and>
      current_battery (node w') = 45 / 2 \<and>
      current_battery (node (goal_start BatteryCharger_init 0)) < current_battery (node w') \<and>
      current_battery (node w') \<le> 100) \<and>
   (\<exists>res w'. charging_loop never_cancel 100 0 (goal_start BatteryCharger_init 0) =
         Some (Returned res, w') \<and>
       success res \<and> current_battery (node w') = 100)"
proof -
  let ?w = "goal_start BatteryCharger_init 0"
  have r: "reachable (node ?w)"
    by (simp add: goal_start_def reachable.init)
  have b: "current_battery (node ?w) < 100"
    by (simp add: goal_start_def BatteryCharger_init_def)
  have nc: "\<not> never_cancel 0" by (simp add: never_cancel_def)
  have lev: "min (current_battery (node ?w) + 5 / 2) 100 = 45 / 2"
    by (simp add: goal_start_def BatteryCharger_init_def)
  have ev: "map_option fst (charging_loop never_cancel 100 0 ?w) =
      Some (Returned \<lparr>success = True, final_percentage = 100, charging_time = 16\<rparr>)"
    by (simp add: run_defs charging_loop.simps)
  note th = charge_state_increases_to_target [OF r b, of never_cancel 0]
  from th nc lev have one:
    "\<exists>w'. charge_tick 100 ?w = (Returned (), w') \<and>
      charging_loop never_cancel 100 0 ?w = charging_loop (later never_cancel) 100 0 w' \<and>
      current_battery (node w') = 45 / 2 \<and>
      current_battery (node ?w) < current_battery (node w') \<and>
      current_battery (node w') \<le> 100"
    by auto
  from th obtain res w' where run: "charging_loop never_cancel 100 0 ?w = Some (Returned res, w')"
    and fin: "success res \<longrightarrow> current_battery (node w') = 100"
    by blast
  from run ev have "success res" by simp
  with run fin have two: "\<exists>res w'. charging_loop never_cancel 100 0 ?w = Some (Returned res, w') \<and>
       success res \<and> current_battery (node w') = 100"
    by blast
  from r b nc one two show ?thesis by blast
qed

text \<open>
  Claim C2. When the cancel flag reads true at the top of an iteration (the loop condition
  holding), the run returns at once: \<open>success\<close> is false, \<open>final_percentage\<close> is the
  level left by the last completed increment, truncated, \<open>charging_time\<close> is the clock
  minus the start time, and the state returned differs from the state at the top of the
  iteration only in the terminal call and one log line: the level, the clock and the
  published feedback are untouched.
\<close>

theorem cancel_observed_returns:
  assumes "current_battery (node w) < target" and "cancel 0"
  shows "charging_loop cancel target start_time w =
    Some (Returned \<lparr>success = False,
                    final_percentage = py_int (current_battery (node w)),
                    charging_time = clock w - start_time\<rparr>,
          w\<lparr>status := CANCELED,
            node := (node w)\<lparr>logged := logged (node w) @ [Info_Charging_canceled]\<rparr>\<rparr>)"
  using assms
  by (subst charging_loop.simps) (simp add: canceled_return_def info_def)

theorem cancel_observed_returns_witness:
  "current_battery (node (goal_start BatteryCharger_init 7)) < 100 \<and> cancel_after 0 0 \<and>
   charging_loop (cancel_after 0) 100 7 (goal_start BatteryCharger_init 7) =
    Some (Returned \<lparr>success = False, final_percentage = 20, charging_time = 0\<rparr>,
          \<lparr>node = BatteryCharger_init\<lparr>logged := logged BatteryCharger_init @
                     [Info_Charging_canceled]\<rparr>,
           clock = 7, published = [], status = CANCELED\<rparr>)"
  using cancel_observed_returns [of "goal_start BatteryCharger_init 7" 100 "cancel_after 0" 7]
  by (simp add: goal_start_def BatteryCharger_init_def cancel_after_def py_int_def)

text \<open>
  Claim C3. A goal whose target is below 0 or above 100 is rejected, and the warning
  logged is the one for an invalid target.
\<close>

theorem invalid_target_rejected:
  assumes "target < 0 \<or> 100 < target"
  shows "goal_callback s target =
    (GoalResponse_REJECT,
     s\<lparr>logged := logged s @
        [Info_Charging_request_received target, Warn_Invalid_target target]\<rparr>)"
  using assms by (auto simp: goal_callback_def info_def)

theorem invalid_target_rejected_witness:
  "((150::real) < 0 \<or> 100 < (150::real)) \<and>
   goal_callback BatteryCharger_init 150 =
    (GoalResponse_REJECT,
     BatteryCharger_init\<lparr>logged := logged BatteryCharger_init @
        [Info_Charging_request_received 150, Warn_Invalid_target 150]\<rparr>)"
  using invalid_target_rejected [of 150 BatteryCharger_init] by simp

text \<open>
  Claim C4. A goal whose target lies in the range 0 to 100 and is not above the current
  level is rejected, and the warning logged is the one for a level already reached.
\<close>

theorem already_satisfied_rejected:
  assumes "0 \<le> target" and "target \<le> 100" and "target \<le> current_battery s"
  shows "goal_callback s target =
    (GoalResponse_REJECT,
     s\<lparr>logged := logged s @
        [Info_Charging_request_received target,
         Warn_Already_at (current_battery s) target]\<rparr>)"
  using assms by (auto simp: goal_callback_def info_def)

theorem already_satisfied_rejected_witness:
  "(0::real) \<le> 20 \<and> (20::real) \<le> 100 \<and> 20 \<le> current_battery BatteryCharger_init \<and>
   goal_callback BatteryCharger_init 20 =
    (GoalResponse_REJECT,
     BatteryCharger_init\<lparr>logged := logged BatteryCharger_init @
        [Info_Charging_request_received 20, Warn_Already_at 20 20]\<rparr>)"
  using already_satisfied_rejected [of 20 BatteryCharger_init]
  by (simp add: BatteryCharger_init_def)

text \<open>
  Claim C5. For a goal accepted in a state of the running server, the run returns, the
  percentages of the feedback it published are in non-decreasing order, and when the
  result reports success at least one feedback was published and the percentage of the
  last one equals the \<open>final_percentage\<close> of the result.
\<close>

theorem feedback_nondecreasing:
  assumes "reachable s" and "goal_callback s target = (GoalResponse_ACCEPT, s')"
  shows "\<exists>res w'. execute_callback cancel target (goal_start s' t) = Some (Returned res, w') \<and>
           sorted (map current_percentage (published w')) \<and>
           (success res \<longrightarrow>
              published w' \<noteq> [] \<and>
              current_percentage (last (published w')) = final_percentage res)"
proof -
  have s': "s' = snd (goal_callback s target)" using assms(2) by simp
  have "reachable s'" unfolding s' using assms(1) by (rule reachable.goal)
  then have rate: "charge_rate s' = 5" by (simp add: reachable_invariant)
  have below: "current_battery s' < target"
    using goal_callback_accept[OF assms(2)] by simp
  define I :: "cancel_flag \<Rightarrow> exec_state \<Rightarrow> bool" where
    "I = (\<lambda>c v. charge_rate (node v) = 5 \<and>
                 sorted (map current_percentage (published v)) \<and>
                 (published v \<noteq> [] \<longrightarrow>
                    current_percentage (last (published v)) = py_int (current_battery (node v))) \<and>
                 (published v = [] \<longrightarrow> current_battery (node v) < target))"
  define Q :: "Result outcome \<times> exec_state \<Rightarrow> bool" where
    "Q = (\<lambda>out. \<exists>res w'. out = (Returned res, w') \<and>
           sorted (map current_percentage (published w')) \<and>
           (success res \<longrightarrow>
              published w' \<noteq> [] \<and>
              current_percentage (last (published w')) = final_percentage res))"
  let ?w0 = "(goal_start s' t)\<lparr>node := info Info_Charging_started (node (goal_start s' t))\<rparr>"
  have "\<exists>out. charging_loop cancel target (clock (goal_start s' t)) ?w0 = Some out \<and> Q out"
  proof (rule charging_loop_rule[where r = 5 and I = I])
    show "(0::real) < 5" by simp
    show "I cancel ?w0" using rate below by (simp add: I_def goal_start_def)
    show "charge_rate (node v) = 5" if "I c v" for c v using that by (simp add: I_def)
    show "I (later c) (snd (charge_tick target v))"
      if inv: "I c v" and lt: "current_battery (node v) < target" and "\<not> c 0" for c v
    proof -
      from inv have nz: "charge_rate (node v) \<noteq> 0" by (simp add: I_def)
      let ?v = "snd (charge_tick target v)"
      have up: "current_battery (node v) \<le> current_battery (node ?v)"
        using inv lt by (simp add: I_def charge_tick_level charge_amount_def)
      have pub: "map current_percentage (published ?v) =
                   map current_percentage (published v) @ [py_int (current_battery (node ?v))]"
        by (subst charge_tick_fields(6)[OF nz]) simp
      have "sorted (map current_percentage (published v) @ [py_int (current_battery (node ?v))])"
      proof (rule sorted_snoc)
        show "sorted (map current_percentage (published v))" using inv by (simp add: I_def)
        assume "map current_percentage (published v) \<noteq> []"
        then have "published v \<noteq> []" by simp
        with inv have "last (map current_percentage (published v)) =
                         py_int (current_battery (node v))"
          by (simp add: I_def last_map)
        with up show "last (map current_percentage (published v)) \<le>
                        py_int (current_battery (node ?v))"
          by (simp add: py_int_mono)
      qed
      moreover have "published ?v \<noteq> []"
        by (subst charge_tick_fields(6)[OF nz]) simp
      moreover have "current_percentage (last (published ?v)) = py_int (current_battery (node ?v))"
        by (subst charge_tick_fields(6)[OF nz]) simp
      moreover have "charge_rate (node ?v) = 5"
        using inv by (simp add: I_def charge_tick_rate)
      ultimately show ?thesis by (simp add: I_def pub)
    qed
    show "Q (canceled_return (clock (goal_start s' t)) v)"
      if "I c v" "current_battery (node v) < target" "c 0" for c v
      using that by (simp add: I_def Q_def canceled_return_def)
    show "Q (succeeded_return (clock (goal_start s' t)) v)"
      if "I c v" "\<not> current_battery (node v) < target" for c v
      using that by (auto simp: I_def Q_def succeeded_return_def Let_def)
  qed
  then show ?thesis
    unfolding Q_def execute_callback_loop by blast
qed

theorem feedback_nondecreasing_witness:
  "reachable BatteryCharger_init \<and>
   goal_callback BatteryCharger_init 100 =
     (GoalResponse_ACCEPT, snd (goal_callback BatteryCharger_init 100)) \<and>
   (\<exists>res w'. execute_callback never_cancel 100
                (goal_start (snd (goal_callback BatteryCharger_init 100)) 0) =
                Some (Returned res, w') \<and>
           sorted (map current_percentage (published w')) \<and>
           success res \<and> published w' \<noteq> [] \<and>
           current_percentage (last (published w')) = 100)"
proof -
  let ?run = "execute_callback never_cancel 100
                (goal_start (snd (goal_callback BatteryCharger_init 100)) 0)"
  have ev: "map_option fst ?run =
      Some (Returned \<lparr>success = True, final_percentage = 100, charging_time = 16\<rparr>)"
    by (simp add: run_defs charging_loop.simps)
  from feedback_nondecreasing [OF reachable.init goal_accepted_at_init, of never_cancel 0]
  obtain res w' where run: "?run = Some (Returned res, w')"
    and srt: "sorted (map current_percentage (published w'))"
    and fin: "success res \<longrightarrow> published w' \<noteq> [] \<and>
                current_percentage (last (published w')) = final_percentage res"
    by blast
  from run ev have res: "res = \<lparr>success = True, final_percentage = 100, charging_time = 16\<rparr>"
    by simp
  with fin have "published w' \<noteq> [] \<and> current_percentage (last (published w')) = 100"
    by simp
  with run srt res have "\<exists>res w'. ?run = Some (Returned res, w') \<and>
           sorted (map current_percentage (published w')) \<and>
           success res \<and> published w' \<noteq> [] \<and>
           current_percentage (last (published w')) = 100"
    by auto
  with reachable.init goal_accepted_at_init show ?thesis by blast
qed

text \<open>
  Claim C6. For a node at level 20 whose rate is 10 per second, the goal of 100 is
  accepted and a tick adds 5; the run that is never cancelled publishes 16 feedback
  messages, at the levels 25, 30, and so on to 100, leaves the level at 100 with the
  goal succeeded, and returns success, a final percentage of 100 and a charging time of
  8 seconds (16 sleeps of one half).
\<close>

theorem scenario_full_charge:
  assumes "current_battery s = 20" and "charge_rate s = 10"
  shows "fst (goal_callback s 100) = GoalResponse_ACCEPT \<and>
         charge_amount s = 5 \<and>
         report (execute_callback never_cancel 100 (goal_start (snd (goal_callback s 100)) t)) =
           Some (Returned \<lparr>success = True, final_percentage = 100, charging_time = 8\<rparr>,
                 100,
                 [25, 30, 35, 40, 45, 50, 55, 60, 65, 70, 75, 80, 85, 90, 95, 100],
                 SUCCEEDED)"
proof -
  obtain l where s: "s = \<lparr>current_battery = 20, charge_rate = 10, logged = l\<rparr>"
    using assms by (cases s) simp
  show ?thesis
    unfolding s
    by (simp add: execute_callback_def goal_start_def info_def goal_callback_def
        charge_tick_def charge_amount_def succeeded_return_def py_int_def never_cancel_def
        later_def report_def Let_def charging_loop.simps)
qed

theorem scenario_full_charge_witness:
  "current_battery \<lparr>current_battery = 20, charge_rate = 10, logged = []\<rparr> = 20 \<and>
   charge_rate \<lparr>current_battery = 20, charge_rate = 10, logged = []\<rparr> = 10 \<and>
   fst (goal_callback \<lparr>current_battery = 20, charge_rate = 10, logged = []\<rparr> 100) =
     GoalResponse_ACCEPT \<and>
   charge_amount \<lparr>current_battery = 20, charge_rate = 10, logged = []\<rparr> = 5 \<and>
   report (execute_callback never_cancel 100
      (goal_start (snd (goal_callback
         \<lparr>current_battery = 20, charge_rate = 10, logged = []\<rparr> 100)) 0)) =
     Some (Returned \<lparr>success = True, final_percentage = 100, charging_time = 8\<rparr>,
           100,
           [25, 30, 35, 40, 45, 50, 55, 60, 65, 70, 75, 80, 85, 90, 95, 100],
           SUCCEEDED)"
proof -
  let ?s = "\<lparr>current_battery = 20, charge_rate = 10, logged = []\<rparr>"
  have a: "current_battery ?s = 20" by simp
  have b: "charge_rate ?s = 10" by simp
  from scenario_full_charge [OF a b, of 0] a b show ?thesis by blast
qed

text \<open>
  Claim C7. For the same node (level 20, rate 10, so increments of 5), a goal of 100
  whose cancel flag first reads true after three completed ticks returns no success, a
  final percentage of 35 (20 + 3 * 5) and a charging time of 1.5 seconds; the level
  stays at 35 and three feedback messages were published.
\<close>

theorem scenario_cancel_after_three:
  assumes "current_battery s = 20" and "charge_rate s = 10"
  shows "fst (goal_callback s 100) = GoalResponse_ACCEPT \<and>
         charge_amount s = 5 \<and>
         report (execute_callback (cancel_after 3) 100
                   (goal_start (snd (goal_callback s 100)) t)) =
           Some (Returned \<lparr>success = False, final_percentage = 35, charging_time = 3 / 2\<rparr>,
                 35, [25, 30, 35], CANCELED)"
proof -
  obtain l where s: "s = \<lparr>current_battery = 20, charge_rate = 10, logged = l\<rparr>"
    using assms by (cases s) simp
  show ?thesis
    unfolding s
    by (simp add: execute_callback_def goal_start_def info_def goal_callback_def
        charge_tick_def charge_amount_def canceled_return_def py_int_def cancel_after_def
        later_def report_def Let_def charging_loop.simps)
qed

theorem scenario_cancel_after_three_witness:
  "current_battery \<lparr>current_battery = 20, charge_rate = 10, logged = []\<rparr> = 20 \<and>
   charge_rate \<lparr>current_battery = 20, charge_rate = 10, logged = []\<rparr> = 10 \<and>
   fst (goal_callback \<lparr>current_battery = 20, charge_rate = 10, logged = []\<rparr> 100) =
     GoalResponse_ACCEPT \<and>
   charge_amount \<lparr>current_battery = 20, charge_rate = 10, logged = []\<rparr> = 5 \<and>
   report (execute_callback (cancel_after 3) 100
      (goal_start (snd (goal_callback
         \<lparr>current_battery = 20, charge_rate = 10, logged = []\<rparr> 100)) 0)) =
     Some (Returned \<lparr>success = False, final_percentage = 35, charging_time = 3 / 2\<rparr>,
           35, [25, 30, 35], CANCELED)"
proof -
  let ?s = "\<lparr>current_battery = 20, charge_rate = 10, logged = []\<rparr>"
  have a: "current_battery ?s = 20" by simp
  have b: "charge_rate ?s = 10" by simp
  from scenario_cancel_after_three [OF a b, of 0] a b show ?thesis by blast
qed

text \<open>
  Claim C8. In a state of the running server the rate is positive, and for a goal
  accepted by the goal callback there and a cancel flag that never reads true the run
  returns: it reports success with the level at the target, after exactly as many
  iterations (one feedback each) as increments fit into the distance to the target,
  rounded up.
\<close>

theorem execution_terminates:
  assumes "reachable s"
    and "goal_callback s target = (GoalResponse_ACCEPT, s')"
    and "\<forall>k. \<not> cancel k"
  shows "0 < charge_rate s \<and>
         (\<exists>res w'. execute_callback cancel target (goal_start s' t) = Some (Returned res, w') \<and>
           success res \<and> current_battery (node w') = target \<and>
           length (published w') = nat \<lceil>(target - current_battery s) / charge_amount s\<rceil>)"
proof -
  define r where "r = charge_rate s"
  define a where "a = r * (1 / 2)"
  define N where "N = nat \<lceil>(target - current_battery s) / a\<rceil>"
  have pos: "0 < r" using assms(1) by (simp add: r_def reachable_invariant)
  then have apos: "0 < a" by (simp add: a_def)
  have acc: "current_battery s < target" "current_battery s' = current_battery s"
    "charge_rate s' = r"
    using goal_callback_accept[OF assms(2)] by (simp_all add: r_def)
  define I :: "cancel_flag \<Rightarrow> exec_state \<Rightarrow> bool" where
    "I = (\<lambda>c v. charge_rate (node v) = r \<and> (\<forall>k. \<not> c k) \<and>
                 current_battery (node v) \<le> target \<and>
                 length (published v) + nat \<lceil>(target - current_battery (node v)) / a\<rceil> = N)"
  define Q :: "Result outcome \<times> exec_state \<Rightarrow> bool" where
    "Q = (\<lambda>out. \<exists>res w'. out = (Returned res, w') \<and> success res \<and>
            current_battery (node w') = target \<and> length (published w') = N)"
  let ?w0 = "(goal_start s' t)\<lparr>node := info Info_Charging_started (node (goal_start s' t))\<rparr>"
  have "\<exists>out. charging_loop cancel target (clock (goal_start s' t)) ?w0 = Some out \<and> Q out"
  proof (rule charging_loop_rule[where r = r and I = I])
    show "0 < r" by (rule pos)
    show "I cancel ?w0" using acc assms(3) by (simp add: I_def goal_start_def N_def)
    show "charge_rate (node v) = r" if "I c v" for c v using that by (simp add: I_def)
    show "I (later c) (snd (charge_tick target v))"
      if inv: "I c v" and lt: "current_battery (node v) < target" and "\<not> c 0" for c v
    proof -
      from inv pos have nz: "charge_rate (node v) \<noteq> 0" by (simp add: I_def)
      from inv have rate: "charge_rate (node v) = r" by (simp add: I_def)
      let ?v = "snd (charge_tick target v)"
      have lev: "current_battery (node ?v) = min (current_battery (node v) + a) target"
        by (simp add: charge_tick_level charge_amount_def rate a_def)
      have len: "length (published ?v) = Suc (length (published v))"
        by (subst charge_tick_fields(6)[OF nz]) simp
      have "nat \<lceil>(target - current_battery (node v)) / a\<rceil> =
              Suc (nat \<lceil>(target - current_battery (node ?v)) / a\<rceil>)"
        unfolding lev using apos lt by (rule ticks_left_step)
      with inv have "length (published ?v) + nat \<lceil>(target - current_battery (node ?v)) / a\<rceil> = N"
        by (simp add: I_def len)
      moreover have "current_battery (node ?v) \<le> target" by (simp add: lev)
      moreover have "\<forall>k. \<not> later c k" using inv by (simp add: I_def later_def)
      moreover have "charge_rate (node ?v) = r" by (simp add: charge_tick_rate rate)
      ultimately show ?thesis by (simp add: I_def)
    qed
    show "Q (canceled_return (clock (goal_start s' t)) v)"
      if "I c v" "current_battery (node v) < target" "c 0" for c v
      using that by (simp add: I_def)
    show "Q (succeeded_return (clock (goal_start s' t)) v)"
      if "I c v" "\<not> current_battery (node v) < target" for c v
    proof -
      from that have "current_battery (node v) = target" by (simp add: I_def)
      with that(1) show ?thesis
        by (simp add: I_def Q_def succeeded_return_def Let_def)
    qed
  qed
  then have "\<exists>res w'. execute_callback cancel target (goal_start s' t) =
                Some (Returned res, w') \<and>
           success res \<and> current_battery (node w') = target \<and>
           length (published w') = nat \<lceil>(target - current_battery s) / charge_amount s\<rceil>"
    unfolding Q_def execute_callback_loop N_def a_def r_def charge_amount_def by blast
  moreover have "0 < charge_rate s" using pos by (simp add: r_def)
  ultimately show ?thesis by blast
qed

theorem execution_terminates_witness:
  "reachable BatteryCharger_init \<and>
   goal_callback BatteryCharger_init 100 =
     (GoalResponse_ACCEPT, snd (goal_callback BatteryCharger_init 100)) \<and>
   (\<forall>k. \<not> never_cancel k) \<and>
   0 < charge_rate BatteryCharger_init \<and>
   (\<exists>res w'. execute_callback never_cancel 100
                (goal_start (snd (goal_callback BatteryCharger_init 100)) 0) =
                Some (Returned res, w') \<and>
           success res \<and> current_battery (node w') = 100 \<and>
           length (published w') = 32)"
proof -
  have n: "\<forall>k. \<not> never_cancel k" by (simp add: never_cancel_def)
  have c: "nat \<lceil>(100 - current_battery BatteryCharger_init) / charge_amount BatteryCharger_init\<rceil> = 32"
    by (simp add: BatteryCharger_init_def charge_amount_def)
  from execution_terminates [OF reachable.init goal_accepted_at_init n, of 0]
    reachable.init n goal_accepted_at_init
  show ?thesis unfolding c by blast
qed

text \<open>
  Claim C9. The goal callback leaves the level (and the rate) as it found them, whatever
  it answers; at level 50 a goal of 30 is rejected and the level is still 50.
\<close>

theorem admission_leaves_charge_state:
  "current_battery (snd (goal_callback s target)) = current_battery s \<and>
   charge_rate (snd (goal_callback s target)) = charge_rate s \<and>
   goal_callback \<lparr>current_battery = 50, charge_rate = 5, logged = []\<rparr> 30 =
     (GoalResponse_REJECT,
      \<lparr>current_battery = 50, charge_rate = 5,
       logged = [Info_Charging_request_received 30, Warn_Already_at 50 30]\<rparr>)"
  by (simp add: goal_callback_def info_def Let_def)

text \<open>
  Claim C10. The node is constructed at level 20 with rate 5. In every state of the
  running server the rate is still 5 and the increment of a tick is 2.5; a pass through
  the loop body never raises on its division, and every run returns a result, leaving
  the rate at 5.
\<close>

theorem rate_is_constant:
  "current_battery BatteryCharger_init = 20 \<and> charge_rate BatteryCharger_init = 5 \<and>
   (reachable s \<longrightarrow>
      charge_rate s = 5 \<and> charge_amount s = 5 / 2 \<and>
      (\<forall>target w. node w = s \<longrightarrow> fst (charge_tick target w) = Returned ()) \<and>
      (\<forall>cancel target t. \<exists>res w'.
          execute_callback cancel target (goal_start s t) = Some (Returned res, w') \<and>
          charge_rate (node w') = 5))"
proof -
  have "charge_rate s = 5 \<and> charge_amount s = 5 / 2 \<and>
      (\<forall>target w. node w = s \<longrightarrow> fst (charge_tick target w) = Returned ()) \<and>
      (\<forall>cancel target t. \<exists>res w'.
          execute_callback cancel target (goal_start s t) = Some (Returned res, w') \<and>
          charge_rate (node w') = 5)" if r: "reachable s"
  proof -
    have rate: "charge_rate s = 5" using r by (simp add: reachable_invariant)
    have amount: "charge_amount s = 5 / 2" by (simp add: charge_amount_def rate)
    have tick: "fst (charge_tick target w) = Returned ()" if "node w = s" for target w
      using that rate by (simp add: charge_tick_fields(1))
    have run: "\<exists>res w'. execute_callback cancel target (goal_start s t) = Some (Returned res, w') \<and>
          charge_rate (node w') = 5" for cancel target t
    proof -
      have "reachable (node (goal_start s t))" using r by (simp add: goal_start_def)
      from execute_callback_reachable[OF this, of cancel target]
      show ?thesis by (auto simp: reachable_invariant)
    qed
    from rate amount tick run show ?thesis by blast
  qed
  then show ?thesis by (simp add: BatteryCharger_init_def)
qed

theorem rate_is_constant_witness:
  "reachable (snd (goal_callback BatteryCharger_init 100)) \<and>
   charge_rate (snd (goal_callback BatteryCharger_init 100)) = 5 \<and>
   charge_amount (snd (goal_callback BatteryCharger_init 100)) = 5 / 2 \<and>
   fst (charge_tick 100 (goal_start (snd (goal_callback BatteryCharger_init 100)) 0)) = Returned ()"
proof -
  have r: "reachable (snd (goal_callback BatteryCharger_init 100))"
    using reachable.init by (rule reachable.goal)
  have n: "node (goal_start (snd (goal_callback BatteryCharger_init 100)) 0) =
             snd (goal_callback BatteryCharger_init 100)"
    by (simp add: goal_start_def)
  from rate_is_constant [of "snd (goal_callback BatteryCharger_init 100)"] r n
  show ?thesis by blast
qed

end
